theory Spec2Isabelle
  imports Complex_Main "HOL-Library.AList"
begin

section \<open>Configuration (GameConfig.ts)\<close>

datatype Team = RED | BLUE

datatype GameState = WAITING | STARTING | PLAYING | ENDING

datatype PowerUpType =
  SPEED_BOOST | INVISIBILITY | MULTI_THROW | SHIELD | TELEPORT | FREEZE | MAGNET | TIME_SLOW

definition MIN_PLAYERS_TO_START :: nat where "MIN_PLAYERS_TO_START = 2"
definition DODGEBALL_DAMAGE :: int where "DODGEBALL_DAMAGE = 100"
definition DODGEBALL_CATCH_WINDOW_MS :: nat where "DODGEBALL_CATCH_WINDOW_MS = 250"
definition DODGEBALL_MAX_BOUNCES :: nat where "DODGEBALL_MAX_BOUNCES = 3"
definition PLAYER_HEALTH :: int where "PLAYER_HEALTH = 100"
definition PLAYER_SHIELD :: int where "PLAYER_SHIELD = 50"

text \<open>\<^verbatim>\<open>ADVANCED.BOUNCE_DAMAGE_MULTIPLIER\<close> is the literal 0.8. The source computes with
  IEEE doubles; the model computes with exact rationals.\<close>

definition BOUNCE_DAMAGE_MULTIPLIER :: rat where "BOUNCE_DAMAGE_MULTIPLIER = 4 / 5"

section \<open>Observable effects\<close>

text \<open>Chat messages, achievement records, sounds and impulses leave the game layer through
  the host. They are kept as a list of events in the order the code issues them; the text
  of a message is abstracted to a constructor that carries the player ids it mentions.\<close>

datatype HitSound = Soft | Bounced | Elimination | Deflected

datatype Event =
    BroadcastTeamWins Team
  | BroadcastDraw
  | BroadcastEliminated string
  | BroadcastThrowElimination string string
  | BroadcastCaught string string
  | BroadcastJoined string Team
  | BroadcastLeft string
  | BroadcastRoundStart
  | MsgShieldBroke string
  | MsgTookDamage string int
  | MsgWelcome string Team
  | RecordDeath string
  | RecordElimination string
  | RecordEndMatch string
  | PlayHitSound HitSound
  | Knockback nat

section \<open>State\<close>

text \<open>\<^verbatim>\<open>DodgeballPlayerEntity\<close>: the fields the combat logic reads and writes.
  \<open>player\<close> is \<^verbatim>\<open>this.player.id\<close>, \<open>deaths\<close> is \<^verbatim>\<open>_stats.deaths\<close>, \<open>canMove\<close> stands
  for the three controller predicates canWalk, canRun and canJump, and \<open>inWorld\<close> says
  whether \<^verbatim>\<open>this.world\<close> is defined.\<close>

record DodgeballPlayerEntity =
  player :: string
  isAlive :: bool
  team :: "Team option"
  health :: int
  shield :: int
  activePowerUps :: "PowerUpType list"
  deaths :: nat
  canMove :: bool
  inWorld :: bool

text \<open>The \<^verbatim>\<open>GameManager\<close> singleton together with the store of player entity objects.
  Entities are objects shared by reference between the manager, the balls and the
  power-ups, so they live in a store indexed by reference; the three JavaScript Maps are
  association lists in insertion order. \<open>connectedPlayers\<close> is the host's count of
  connected players, which the manager only reads.\<close>

record State =
  world :: bool
  gameState :: GameState
  playerEntities :: "(string \<times> nat) list"
  playerTeams :: "(string \<times> Team) list"
  alivePlayers :: "(string \<times> bool) list"
  roundTimer :: bool
  connectedPlayers :: nat
  entities :: "nat \<Rightarrow> DodgeballPlayerEntity"
  nextEntity :: nat
  events :: "Event list"

definition emit :: "Event list \<Rightarrow> State \<Rightarrow> State" where
  "emit es s = s\<lparr>events := events s @ es\<rparr>"

section \<open>GameManager: round end and elimination\<close>

text \<open>\<^verbatim>\<open>_endRound(winner)\<close>. The delayed \<^verbatim>\<open>_resetGame\<close> is a later timer callback.\<close>

definition endRound :: "Team option \<Rightarrow> State \<Rightarrow> State" where
  "endRound winner s =
     (if \<not> world s then s
      else emit [case winner of Some t \<Rightarrow> BroadcastTeamWins t | None \<Rightarrow> BroadcastDraw]
             (s\<lparr>gameState := ENDING, roundTimer := False\<rparr>))"

text \<open>\<^verbatim>\<open>this._alivePlayers.get(playerId)\<close> used as a condition: a missing key is falsy.\<close>

definition aliveGet :: "State \<Rightarrow> string \<Rightarrow> bool" where
  "aliveGet s pid = (map_of (alivePlayers s) pid = Some True)"

definition teamAliveCount :: "Team \<Rightarrow> State \<Rightarrow> nat" where
  "teamAliveCount t s =
     length (filter (\<lambda>(pid, tm). tm = t \<and> aliveGet s pid) (playerTeams s))"

text \<open>\<^verbatim>\<open>_checkForRoundEnd()\<close>\<close>

definition checkForRoundEnd :: "State \<Rightarrow> State" where
  "checkForRoundEnd s =
     (if \<not> world s then s
      else if gameState s \<noteq> PLAYING then s
      else if teamAliveCount RED s = 0 then endRound (Some BLUE) s
      else if teamAliveCount BLUE s = 0 then endRound (Some RED) s
      else s)"

text \<open>\<^verbatim>\<open>eliminatePlayer(player)\<close>; the UI refresh is presentation only.\<close>

definition eliminatePlayer :: "string \<Rightarrow> State \<Rightarrow> State" where
  "eliminatePlayer pid s =
     (case map_of (playerEntities s) pid of
        None \<Rightarrow> s
      | Some e \<Rightarrow>
          if shield (entities s e) > 0 then s
          else
            let s1 = s\<lparr>alivePlayers := AList.update pid False (alivePlayers s)\<rparr> in
            if \<not> world s1 then s1
            else checkForRoundEnd (emit [RecordElimination pid, BroadcastEliminated pid] s1))"

text \<open>\<^verbatim>\<open>GameModeManager.checkTeamEliminationVictory(alivePlayers, playerTeams)\<close>\<close>

definition checkTeamEliminationVictory ::
  "(string \<times> bool) list \<Rightarrow> (string \<times> Team) list \<Rightarrow> Team option" where
  "checkTeamEliminationVictory alive teams =
     (let aliveRed = length (filter (\<lambda>(pid, a). a \<and> map_of teams pid = Some RED) alive);
          aliveBlue = length (filter (\<lambda>(pid, a). a \<and> map_of teams pid = Some BLUE) alive)
      in if aliveRed = 0 \<and> aliveBlue > 0 then Some BLUE
         else if aliveBlue = 0 \<and> aliveRed > 0 then Some RED
         else None)"

section \<open>DodgeballPlayerEntity: eliminate and takeDamage\<close>

text \<open>\<^verbatim>\<open>eliminate()\<close> of the entity at reference \<open>e\<close>.\<close>

definition eliminate :: "nat \<Rightarrow> State \<Rightarrow> State" where
  "eliminate e s =
     (let p = entities s e in
      if \<not> isAlive p then s
      else if shield p > 0 then
        emit (if inWorld p then [MsgShieldBroke (player p)] else [])
          (s\<lparr>entities := (entities s)
               (e := p\<lparr>shield := 0, activePowerUps := removeAll SHIELD (activePowerUps p)\<rparr>)\<rparr>)
      else
        eliminatePlayer (player p)
          (emit [RecordDeath (player p)]
            (s\<lparr>entities := (entities s)
                 (e := p\<lparr>isAlive := False, deaths := deaths p + 1, canMove := False\<rparr>)\<rparr>)))"

text \<open>\<^verbatim>\<open>takeDamage(damage)\<close>\<close>

definition takeDamage :: "nat \<Rightarrow> int \<Rightarrow> State \<Rightarrow> State" where
  "takeDamage e damage s =
     (let p = entities s e;
          s1 = s\<lparr>entities := (entities s)(e := p\<lparr>health := health p - damage\<rparr>)\<rparr>
      in if health (entities s1 e) \<le> 0 then eliminate e s1 else s1)"

section \<open>GameManager: team assignment and join\<close>

definition teamCount :: "Team \<Rightarrow> State \<Rightarrow> nat" where
  "teamCount t s = length (filter (\<lambda>tm. tm = t) (map snd (playerTeams s)))"

text \<open>\<^verbatim>\<open>_assignTeam()\<close>\<close>

definition assignTeam :: "State \<Rightarrow> Team" where
  "assignTeam s = (if teamCount RED s \<le> teamCount BLUE s then RED else BLUE)"

text \<open>\<^verbatim>\<open>_startCountdown()\<close> up to the arming of the interval timer, and
  \<^verbatim>\<open>_checkForGameStart()\<close>.\<close>

definition startCountdown :: "State \<Rightarrow> State" where
  "startCountdown s = (if \<not> world s then s else s\<lparr>gameState := STARTING\<rparr>)"

definition checkForGameStart :: "State \<Rightarrow> State" where
  "checkForGameStart s =
     (if \<not> world s then s
      else if gameState s \<noteq> WAITING then s
      else if connectedPlayers s \<ge> MIN_PLAYERS_TO_START then startCountdown s
      else s)"

text \<open>The field initialisers of \<^verbatim>\<open>DodgeballPlayerEntity\<close> and the state reset of its
  \<^verbatim>\<open>spawn\<close>.\<close>

definition newPlayerEntity :: "string \<Rightarrow> DodgeballPlayerEntity" where
  "newPlayerEntity pid =
     \<lparr>player = pid, isAlive = True, team = None, health = PLAYER_HEALTH,
      shield = PLAYER_SHIELD, activePowerUps = [], deaths = 0, canMove = True,
      inWorld = False\<rparr>"

definition spawnPlayer :: "DodgeballPlayerEntity \<Rightarrow> DodgeballPlayerEntity" where
  "spawnPlayer p =
     p\<lparr>isAlive := True, health := PLAYER_HEALTH, shield := PLAYER_SHIELD,
       activePowerUps := [], inWorld := True\<rparr>"

text \<open>\<^verbatim>\<open>handlePlayerJoin(player)\<close>; \<^verbatim>\<open>new\<close> allocates the next free reference.\<close>

definition handlePlayerJoin :: "string \<Rightarrow> State \<Rightarrow> State" where
  "handlePlayerJoin pid s =
     (if \<not> world s then s
      else
        let e = nextEntity s;
            s1 = s\<lparr>entities := (entities s)(e := newPlayerEntity pid),
                   nextEntity := e + 1,
                   playerEntities := AList.update pid e (playerEntities s)\<rparr>;
            t = assignTeam s1;
            s2 = s1\<lparr>playerTeams := AList.update pid t (playerTeams s1),
                    alivePlayers := AList.update pid True (alivePlayers s1),
                    entities := (entities s1)
                      (e := spawnPlayer ((entities s1 e)\<lparr>team := Some t\<rparr>))\<rparr>
        in checkForGameStart (emit [MsgWelcome pid t, BroadcastJoined pid t] s2))"

text \<open>A run of joins, one player after the other.\<close>

definition joins :: "string list \<Rightarrow> State \<Rightarrow> State" where
  "joins pids s = foldl (\<lambda>st pid. handlePlayerJoin pid st) s pids"

text \<open>\<^verbatim>\<open>handlePlayerLeave(player)\<close>\<close>

definition handlePlayerLeave :: "string \<Rightarrow> State \<Rightarrow> State" where
  "handlePlayerLeave pid s =
     (if \<not> world s then s
      else
        let s1 = (case map_of (playerEntities s) pid of
                    None \<Rightarrow> s
                  | Some e \<Rightarrow>
                      s\<lparr>entities := (entities s)(e := (entities s e)\<lparr>inWorld := False\<rparr>),
                        playerEntities := AList.delete pid (playerEntities s)\<rparr>);
            s2 = s1\<lparr>playerTeams := AList.delete pid (playerTeams s1),
                    alivePlayers := AList.delete pid (alivePlayers s1)\<rparr>;
            s3 = emit [RecordEndMatch pid, BroadcastLeft pid] s2
        in if gameState s3 = PLAYING then checkForRoundEnd s3 else s3)"

text \<open>\<^verbatim>\<open>_startRound()\<close>, the callback of the countdown when it reaches zero. The balls it
  spawns are objects of their own, see \<open>spawnedDodgeball\<close> below.\<close>

definition startRound :: "State \<Rightarrow> State" where
  "startRound s =
     (if \<not> world s then s
      else emit [BroadcastRoundStart]
             (s\<lparr>gameState := PLAYING,
                alivePlayers :=
                  foldl (\<lambda>al (pid, t). AList.update pid True al) (alivePlayers s) (playerTeams s),
                roundTimer := True\<rparr>))"

text \<open>The manager after \<^verbatim>\<open>setupGame(world)\<close>, before anybody has joined.\<close>

definition initialState :: State where
  "initialState =
     \<lparr>world = True, gameState = WAITING, playerEntities = [], playerTeams = [],
      alivePlayers = [], roundTimer = False, connectedPlayers = 0,
      entities = (\<lambda>_. newPlayerEntity []), nextEntity = 0, events = []\<rparr>"

section \<open>DodgeballEntity\<close>

text \<open>\<open>thrower\<close> is a reference into the entity store, \<open>catchWindow\<close> holds the due time
  of the pending catch-window timer, and \<open>ballWorld\<close> says whether \<^verbatim>\<open>this.world\<close> is
  defined, which is the case from \<^verbatim>\<open>spawn\<close> to \<^verbatim>\<open>despawn\<close>.\<close>

record DodgeballEntity =
  thrower :: "nat option"
  bounceCount :: nat
  canCatch :: bool
  catchWindow :: "nat option"
  powerLevel :: int
  damageMultiplier :: rat
  ballWorld :: bool

text \<open>The constructor followed by \<^verbatim>\<open>spawn\<close>.\<close>

definition spawnedDodgeball :: "int \<Rightarrow> DodgeballEntity" where
  "spawnedDodgeball pl =
     \<lparr>thrower = None, bounceCount = 0, canCatch = True, catchWindow = None,
      powerLevel = pl, damageMultiplier = of_int pl, ballWorld = True\<rparr>"

definition canBeCaught :: "DodgeballEntity \<Rightarrow> bool" where
  "canBeCaught b = (canCatch b \<and> bounceCount b = 0)"

text \<open>\<^verbatim>\<open>despawn()\<close>: the host's \<^verbatim>\<open>super.despawn()\<close> detaches the entity from its world.\<close>

definition despawn :: "DodgeballEntity \<Rightarrow> DodgeballEntity" where
  "despawn b = b\<lparr>catchWindow := None, ballWorld := False\<rparr>"

text \<open>\<^verbatim>\<open>_startCatchWindow()\<close> at time \<open>now\<close>, and the callback it arms.\<close>

definition startCatchWindow :: "nat \<Rightarrow> DodgeballEntity \<Rightarrow> DodgeballEntity" where
  "startCatchWindow now b = b\<lparr>catchWindow := Some (now + DODGEBALL_CATCH_WINDOW_MS)\<rparr>"

definition catchWindowExpired :: "DodgeballEntity \<Rightarrow> DodgeballEntity" where
  "catchWindowExpired b = b\<lparr>canCatch := False, catchWindow := None\<rparr>"

text \<open>\<^verbatim>\<open>throw(thrower, direction, force)\<close> at time \<open>now\<close>; the impulse is physics.\<close>

definition throw :: "nat \<Rightarrow> nat \<Rightarrow> DodgeballEntity \<Rightarrow> DodgeballEntity" where
  "throw now t b =
     (if \<not> ballWorld b then b
      else startCatchWindow now (b\<lparr>thrower := Some t, bounceCount := 0, canCatch := True\<rparr>))"

text \<open>\<^verbatim>\<open>_onBlockCollision()\<close>\<close>

definition onBlockCollision :: "DodgeballEntity \<Rightarrow> DodgeballEntity" where
  "onBlockCollision b =
     (let b1 = b\<lparr>bounceCount := bounceCount b + 1\<rparr>;
          b2 = (if bounceCount b1 \<ge> DODGEBALL_MAX_BOUNCES
                then b1\<lparr>canCatch := False, catchWindow := None\<rparr> else b1)
      in b2\<lparr>damageMultiplier := damageMultiplier b2 * BOUNCE_DAMAGE_MULTIPLIER\<rparr>)"

definition finalDamage :: "DodgeballEntity \<Rightarrow> int" where
  "finalDamage b =
     \<lfloor>of_int DODGEBALL_DAMAGE * damageMultiplier b * of_int (powerLevel b)\<rfloor>"

text \<open>\<^verbatim>\<open>attemptElimination(player, damage)\<close>\<close>

definition attemptElimination ::
  "nat \<Rightarrow> int \<Rightarrow> DodgeballEntity \<Rightarrow> State \<Rightarrow> bool \<times> State" where
  "attemptElimination e damage b s =
     (case thrower b of
        None \<Rightarrow> (False, s)
      | Some t \<Rightarrow>
          if \<not> ballWorld b then (False, s)
          else if shield (entities s e) > 0 then (False, s)
          else
            let s1 = eliminate e s in
            (True, emit [BroadcastThrowElimination (player (entities s1 t))
                           (player (entities s1 e))] s1))"

text \<open>\<^verbatim>\<open>applyDamage(player, damage)\<close> and \<^verbatim>\<open>applyHitKnockback(player)\<close>\<close>

definition applyDamage :: "nat \<Rightarrow> int \<Rightarrow> DodgeballEntity \<Rightarrow> State \<Rightarrow> State" where
  "applyDamage e damage b s =
     (let s1 = takeDamage e damage s in
      if ballWorld b then emit [MsgTookDamage (player (entities s1 e)) damage] s1 else s1)"

definition applyHitKnockback :: "nat \<Rightarrow> State \<Rightarrow> State" where
  "applyHitKnockback e s = emit [Knockback e] s"

text \<open>\<^verbatim>\<open>_handlePlayerHit(player)\<close>\<close>

definition handlePlayerHit ::
  "nat \<Rightarrow> DodgeballEntity \<times> State \<Rightarrow> DodgeballEntity \<times> State" where
  "handlePlayerHit e bs =
     (let b = fst bs; s = snd bs in
      if \<not> ballWorld b then (b, s)
      else if thrower b = None then (b, s)
      else if bounceCount b \<ge> DODGEBALL_MAX_BOUNCES then
        (despawn b, applyHitKnockback e (emit [PlayHitSound Soft] s))
      else if bounceCount b = 0 then
        (case attemptElimination e (finalDamage b) b s of
           (True, s1) \<Rightarrow> (despawn b, emit [PlayHitSound Elimination] s1)
         | (False, s1) \<Rightarrow> (despawn b, emit [PlayHitSound Deflected] s1))
      else
        (despawn b, emit [PlayHitSound Bounced] (applyDamage e (finalDamage b) b s)))"

text \<open>\<^verbatim>\<open>_onEntityCollision\<close> with a player entity as the entity hit.\<close>

definition onEntityCollision ::
  "nat \<Rightarrow> DodgeballEntity \<times> State \<Rightarrow> DodgeballEntity \<times> State" where
  "onEntityCollision e bs =
     (let b = fst bs; s = snd bs in
      if thrower b = Some e \<and> bounceCount b = 0 then (b, s)
      else if \<not> isAlive (entities s e) then (b, s)
      else handlePlayerHit e (b, s))"

text \<open>\<^verbatim>\<open>catch(catcher)\<close>\<close>

definition catch :: "nat \<Rightarrow> DodgeballEntity \<times> State \<Rightarrow> DodgeballEntity \<times> State" where
  "catch c bs =
     (let b = fst bs; s = snd bs in
      if \<not> canBeCaught b then (b, s)
      else if \<not> ballWorld b then (b, s)
      else
        (despawn b,
         (case thrower b of
            None \<Rightarrow> s
          | Some t \<Rightarrow>
              if t \<noteq> c \<and> isAlive (entities s t)
              then
                let s1 = eliminate t s in
                emit [BroadcastCaught (player (entities s1 c)) (player (entities s1 t))] s1
              else s)))"

subsection \<open>The life of a ball as a sequence of callbacks\<close>

text \<open>The callbacks a spawned ball receives, on a clock in milliseconds. \<open>Elapse dt\<close>
  lets \<open>dt\<close> ms pass and runs the catch-window callback if it has fallen due (a timer is
  taken to fire at its due time); \<open>LifetimeExpires\<close> is the auto-despawn timer or the
  lifetime check of the tick handler, both of which despawn a ball that is still spawned.\<close>

datatype BallEvent =
    Elapse nat
  | BlockCollision
  | EntityCollision nat
  | Catch nat
  | LifetimeExpires

definition fireTimers :: "nat \<Rightarrow> DodgeballEntity \<Rightarrow> DodgeballEntity" where
  "fireTimers now b =
     (case catchWindow b of
        None \<Rightarrow> b
      | Some due \<Rightarrow> if due \<le> now then catchWindowExpired b else b)"

fun ballStep ::
  "nat \<times> DodgeballEntity \<times> State \<Rightarrow> BallEvent \<Rightarrow> nat \<times> DodgeballEntity \<times> State" where
  "ballStep (now, b, s) (Elapse dt) = (now + dt, fireTimers (now + dt) b, s)"
| "ballStep (now, b, s) BlockCollision = (now, onBlockCollision b, s)"
| "ballStep (now, b, s) (EntityCollision e) = (now, onEntityCollision e (b, s))"
| "ballStep (now, b, s) (Catch c) = (now, catch c (b, s))"
| "ballStep (now, b, s) LifetimeExpires = (now, if ballWorld b then despawn b else b, s)"

definition ballRun ::
  "BallEvent list \<Rightarrow> nat \<times> DodgeballEntity \<times> State \<Rightarrow> nat \<times> DodgeballEntity \<times> State" where
  "ballRun evs c = foldl ballStep c evs"

section \<open>PowerUpEntity\<close>

text \<open>What the power-up does to the outside, in order: the call of
  \<^verbatim>\<open>applyPowerUpEffect\<close> for a player, the notification of the collecting player, and the
  host's \<^verbatim>\<open>super.despawn()\<close>.\<close>

datatype PowerUpTrace = EffectApplied PowerUpType nat | CollectedMsg nat | Despawned

text \<open>\<open>despawnTimer\<close> says whether the 30 s timer is pending and \<open>powerUpWorld\<close> whether
  \<^verbatim>\<open>this.world\<close> is defined (which is \<^verbatim>\<open>isSpawned\<close>). \<^verbatim>\<open>collect\<close> is an async
  function: it runs up to its \<^verbatim>\<open>await\<close> inside the collision callback and the rest runs
  later; \<open>suspended\<close> holds the players of the calls that wait at the \<^verbatim>\<open>await\<close>.\<close>

record PowerUpEntity =
  powerUpType :: PowerUpType
  collected :: bool
  despawnTimer :: bool
  powerUpWorld :: bool
  suspended :: "nat list"
  trace :: "PowerUpTrace list"

text \<open>The constructor followed by \<^verbatim>\<open>spawn\<close>.\<close>

definition spawnedPowerUp :: "PowerUpType \<Rightarrow> PowerUpEntity" where
  "spawnedPowerUp ty =
     \<lparr>powerUpType = ty, collected = False, despawnTimer = True, powerUpWorld = True,
      suspended = [], trace = []\<rparr>"

text \<open>\<^verbatim>\<open>despawn()\<close>\<close>

definition powerUpDespawn :: "PowerUpEntity \<Rightarrow> PowerUpEntity" where
  "powerUpDespawn pu =
     pu\<lparr>despawnTimer := False, powerUpWorld := False, trace := trace pu @ [Despawned]\<rparr>"

text \<open>\<^verbatim>\<open>collect(player)\<close> up to the \<^verbatim>\<open>await\<close>: the guard, the flag, and the call of
  \<^verbatim>\<open>applyPowerUpEffect\<close>.\<close>

definition collect :: "nat \<Rightarrow> PowerUpEntity \<Rightarrow> PowerUpEntity" where
  "collect e pu =
     (if collected pu then pu
      else if \<not> powerUpWorld pu then pu
      else pu\<lparr>collected := True,
              trace := trace pu @ [EffectApplied (powerUpType pu) e],
              suspended := suspended pu @ [e]\<rparr>)"

text \<open>The rest of \<^verbatim>\<open>collect\<close> after the \<^verbatim>\<open>await\<close>, for the oldest suspended call. Without
  a world, \<^verbatim>\<open>this.world.chatManager\<close> throws and the call ends there.\<close>

definition collectResume :: "PowerUpEntity \<Rightarrow> PowerUpEntity" where
  "collectResume pu =
     (case suspended pu of
        [] \<Rightarrow> pu
      | e # rest \<Rightarrow>
          let pu1 = pu\<lparr>suspended := rest\<rparr> in
          if \<not> powerUpWorld pu1 then pu1
          else powerUpDespawn
                 (pu1\<lparr>trace := trace pu1 @ [CollectedMsg e], despawnTimer := False\<rparr>))"

text \<open>The callback of the auto-despawn timer armed by the constructor.\<close>

definition autoDespawn :: "PowerUpEntity \<Rightarrow> PowerUpEntity" where
  "autoDespawn pu =
     (if \<not> despawnTimer pu then pu
      else
        let pu1 = pu\<lparr>despawnTimer := False\<rparr> in
        if powerUpWorld pu1 then powerUpDespawn pu1 else pu1)"

text \<open>The collision listener armed by \<^verbatim>\<open>spawn\<close>.\<close>

datatype OtherEntity = PlayerEntity nat | NonPlayerEntity

definition onPowerUpCollision :: "OtherEntity \<Rightarrow> bool \<Rightarrow> PowerUpEntity \<Rightarrow> PowerUpEntity" where
  "onPowerUpCollision other started pu =
     (case other of
        NonPlayerEntity \<Rightarrow> pu
      | PlayerEntity e \<Rightarrow> if started \<and> \<not> collected pu then collect e pu else pu)"

datatype PowerUpEvent = Collision OtherEntity bool | Resume | TimerFires

fun powerUpStep :: "PowerUpEntity \<Rightarrow> PowerUpEvent \<Rightarrow> PowerUpEntity" where
  "powerUpStep pu (Collision other started) = onPowerUpCollision other started pu"
| "powerUpStep pu Resume = collectResume pu"
| "powerUpStep pu TimerFires = autoDespawn pu"

definition powerUpRun :: "PowerUpEvent list \<Rightarrow> PowerUpEntity \<Rightarrow> PowerUpEntity" where
  "powerUpRun evs pu = foldl powerUpStep pu evs"

fun isEffect :: "PowerUpTrace \<Rightarrow> bool" where
  "isEffect (EffectApplied ty e) = True"
| "isEffect _ = False"

definition effects :: "PowerUpEntity \<Rightarrow> PowerUpTrace list" where
  "effects pu = filter isEffect (trace pu)"

definition despawns :: "PowerUpEntity \<Rightarrow> nat" where
  "despawns pu = length (filter (\<lambda>x. x = Despawned) (trace pu))"

section \<open>Scenarios\<close>

text \<open>Two players join an attached world, a joins RED and b joins BLUE, and the countdown
  runs out: the round is being played. Player a is entity 0, player b is entity 1.\<close>

definition twoPlayersPlaying :: State where
  "twoPlayersPlaying =
     startRound (joins [''a'', ''b''] (initialState\<lparr>connectedPlayers := 2\<rparr>))"

text \<open>Both players leave during the countdown, and the countdown still starts the round.\<close>

definition emptyRoundPlaying :: State where
  "emptyRoundPlaying =
     startRound (handlePlayerLeave ''b'' (handlePlayerLeave ''a''
       (joins [''a'', ''b''] (initialState\<lparr>connectedPlayers := 2\<rparr>))))"

text \<open>A ball of power level 1 thrown by entity 0 at time 0, and the same ball after one
  bounce off a block.\<close>

definition thrownBall :: DodgeballEntity where
  "thrownBall = throw 0 0 (spawnedDodgeball 1)"

definition bouncedBall :: DodgeballEntity where
  "bouncedBall = onBlockCollision thrownBall"

text \<open>Player b is hit twice in a row by such a once-bounced ball.\<close>

definition bouncedHit :: "State \<Rightarrow> State" where
  "bouncedHit s = snd (handlePlayerHit 1 (bouncedBall, s))"

definition afterTwoBouncedHits :: State where
  "afterTwoBouncedHits = bouncedHit (bouncedHit twoPlayersPlaying)"

text \<open>The thrown ball 300 ms after the throw, and 100 ms after the throw with a bounce
  in between; and a ball that was spawned and never thrown, after it has fallen to the
  ground, and after ten seconds without touching anything.\<close>

definition ballPastWindow :: "nat \<times> DodgeballEntity \<times> State" where
  "ballPastWindow = ballRun [Elapse 300] (0, throw 0 0 (spawnedDodgeball 1), twoPlayersPlaying)"

definition ballBouncedInWindow :: "nat \<times> DodgeballEntity \<times> State" where
  "ballBouncedInWindow =
     ballRun [BlockCollision, Elapse 100] (0, throw 0 0 (spawnedDodgeball 1), twoPlayersPlaying)"

definition ballOnGround :: "nat \<times> DodgeballEntity \<times> State" where
  "ballOnGround = ballRun [Elapse 1000, BlockCollision] (0, spawnedDodgeball 1, twoPlayersPlaying)"

definition ballInAir :: "nat \<times> DodgeballEntity \<times> State" where
  "ballInAir = ballRun [Elapse 10000] (0, spawnedDodgeball 1, twoPlayersPlaying)"

text \<open>The thrown ball hits player b 100 ms after the throw, which despawns it, and 900 ms
  more pass.\<close>

definition ballDespawnedByHit :: "nat \<times> DodgeballEntity \<times> State" where
  "ballDespawnedByHit =
     ballRun [Elapse 100, EntityCollision 1, Elapse 900]
       (0, throw 0 0 (spawnedDodgeball 1), twoPlayersPlaying)"

text \<open>A ball that has bounced three times, and the callbacks it receives afterwards: it
  hits player b, who is alive with shield 0 and health 20.\<close>

definition spentBall :: DodgeballEntity where
  "spentBall = onBlockCollision (onBlockCollision (onBlockCollision thrownBall))"

definition weakenedPlayer :: State where
  "weakenedPlayer = takeDamage 1 80 (eliminate 1 twoPlayersPlaying)"

definition spentBallHits :: "nat \<times> DodgeballEntity \<times> State" where
  "spentBallHits = ballRun [Elapse 50, EntityCollision 1] (500, spentBall, weakenedPlayer)"

text \<open>The events of a hit that only knocks the player back.\<close>

fun softHitEvent :: "Event \<Rightarrow> bool" where
  "softHitEvent (PlayHitSound Soft) = True"
| "softHitEvent (Knockback e) = True"
| "softHitEvent _ = False"

section \<open>Basic facts\<close>

lemma entities_emit [simp]: "entities (emit es s) = entities s"
  by (simp add: emit_def)

lemma entities_endRound [simp]: "entities (endRound w s) = entities s"
  by (simp add: endRound_def)

lemma entities_checkForRoundEnd [simp]: "entities (checkForRoundEnd s) = entities s"
  by (simp add: checkForRoundEnd_def)

lemma entities_eliminatePlayer [simp]: "entities (eliminatePlayer pid s) = entities s"
  by (simp add: eliminatePlayer_def Let_def split: option.split)

lemma eliminate_dead: "\<not> isAlive (entities s e) \<Longrightarrow> eliminate e s = s"
  by (simp add: eliminate_def)

lemma entities_eliminate_shielded:
  "isAlive (entities s e) \<Longrightarrow> shield (entities s e) > 0 \<Longrightarrow>
   entities (eliminate e s) =
     (entities s)(e := (entities s e)\<lparr>shield := 0,
        activePowerUps := removeAll SHIELD (activePowerUps (entities s e))\<rparr>)"
  by (simp add: eliminate_def Let_def)

lemma entities_eliminate_unshielded:
  "isAlive (entities s e) \<Longrightarrow> shield (entities s e) \<le> 0 \<Longrightarrow>
   entities (eliminate e s) =
     (entities s)(e := (entities s e)\<lparr>isAlive := False,
        deaths := deaths (entities s e) + 1, canMove := False\<rparr>)"
  by (simp add: eliminate_def Let_def)

lemma health_eliminate [simp]: "health (entities (eliminate e s) x) = health (entities s x)"
  by (cases "isAlive (entities s e)"; cases "shield (entities s e) > 0")
     (simp_all add: eliminate_dead entities_eliminate_shielded entities_eliminate_unshielded)

lemma funpow_absorb:
  assumes "f (f x) = f x"
  shows "(f ^^ Suc n) x = f x"
  by (induction n) (simp_all add: assms)

section \<open>Shield interception\<close>

text \<open>What the three elimination paths have in common for an alive player whose shield is
  positive: the player stays alive and keeps their health. Only \<^verbatim>\<open>eliminate()\<close> consumes
  the shield; \<^verbatim>\<open>attemptElimination\<close> and \<^verbatim>\<open>eliminatePlayer\<close> return without touching it.\<close>

lemma shielded_player_survives:
  assumes "isAlive (entities s e)" and "shield (entities s e) > 0"
  shows "isAlive (entities (eliminate e s) e) \<and>
         health (entities (eliminate e s) e) = health (entities s e) \<and>
         shield (entities (eliminate e s) e) = 0"
    and "attemptElimination e d b s = (False, s)"
    and "map_of (playerEntities s) pid = Some e \<Longrightarrow> eliminatePlayer pid s = s"
  using assms
  by (simp_all add: entities_eliminate_shielded attemptElimination_def eliminatePlayer_def
      split: option.split)

text \<open>Claim C1. A player whose shield is positive when an elimination is attempted survives
  with shield 0, health unchanged and alive flag true, on every elimination path. The
  code does not do this on two of the three paths: player b, fresh in the round with
  shield 50, is hit directly by a ball that has not bounced, and is then eliminated
  through the game manager; both times b survives and the shield is still 50.\<close>

theorem shield_not_consumed_by_direct_hit:
  "isAlive (entities twoPlayersPlaying 1) \<and>
   shield (entities twoPlayersPlaying 1) = 50 \<and>
   thrower thrownBall = Some 0 \<and> bounceCount thrownBall = 0 \<and> ballWorld thrownBall \<and>
   shield (entities (snd (handlePlayerHit 1 (thrownBall, twoPlayersPlaying))) 1) = 50 \<and>
   fst (attemptElimination 1 (finalDamage thrownBall) thrownBall twoPlayersPlaying) = False \<and>
   shield (entities (eliminatePlayer ''b'' twoPlayersPlaying) 1) = 50 \<and>
   shield (entities (eliminate 1 twoPlayersPlaying) 1) = 0"
  by code_simp

section \<open>Round end\<close>

text \<open>With one team at zero and the other not, both the manager's check and the mode
  manager's victory check name the team that still has members.\<close>

lemma checkForRoundEnd_one_team_out:
  assumes "world s" and "gameState s = PLAYING"
  shows "teamAliveCount RED s = 0 \<Longrightarrow> teamAliveCount BLUE s > 0 \<Longrightarrow>
           checkForRoundEnd s = endRound (Some BLUE) s"
    and "teamAliveCount BLUE s = 0 \<Longrightarrow> teamAliveCount RED s > 0 \<Longrightarrow>
           checkForRoundEnd s = endRound (Some RED) s"
  using assms by (simp_all add: checkForRoundEnd_def)

lemma checkForRoundEnd_both_out:
  assumes "world s" and "gameState s = PLAYING"
    and "teamAliveCount RED s = 0" and "teamAliveCount BLUE s = 0"
  shows "checkForRoundEnd s = endRound (Some BLUE) s"
  using assms by (simp add: checkForRoundEnd_def)

text \<open>Claim C2. A round-end evaluation with RED at zero and BLUE above zero declares BLUE
  the winner, and symmetrically; with both teams at zero the round is a draw and no team
  is named. The code names BLUE in the last case: in a round that started after both
  players had left during the countdown, both teams have no alive member, and the check
  ends the round with the broadcast that the BLUE team wins, where
  \<^verbatim>\<open>checkTeamEliminationVictory\<close> on the same maps names no team.\<close>

theorem both_teams_out_declares_blue:
  "world emptyRoundPlaying \<and> gameState emptyRoundPlaying = PLAYING \<and>
   teamAliveCount RED emptyRoundPlaying = 0 \<and>
   teamAliveCount BLUE emptyRoundPlaying = 0 \<and>
   gameState (checkForRoundEnd emptyRoundPlaying) = ENDING \<and>
   events (checkForRoundEnd emptyRoundPlaying) =
     events emptyRoundPlaying @ [BroadcastTeamWins BLUE] \<and>
   checkTeamEliminationVictory (alivePlayers emptyRoundPlaying)
     (playerTeams emptyRoundPlaying) = None"
  by code_simp

section \<open>Bounced hits\<close>

text \<open>Claim C3. A hit resolved while the bounce count is above 0 and below the maximum
  applies damage and never eliminates the target, whatever the target's health. The code
  eliminates through \<^verbatim>\<open>takeDamage\<close>: player b has taken two hits of a once-bounced ball
  (damage 80 each; the second one broke the shield), is alive with health -60 and
  shield 0, and the third such hit eliminates b and ends the round.\<close>

theorem bounced_hit_eliminates:
  "bounceCount bouncedBall = 1 \<and> 0 < bounceCount bouncedBall \<and>
   bounceCount bouncedBall < DODGEBALL_MAX_BOUNCES \<and>
   finalDamage bouncedBall = 80 \<and>
   isAlive (entities afterTwoBouncedHits 1) \<and>
   health (entities afterTwoBouncedHits 1) = - 60 \<and>
   shield (entities afterTwoBouncedHits 1) = 0 \<and>
   \<not> isAlive (entities (bouncedHit afterTwoBouncedHits) 1) \<and>
   map_of (alivePlayers (bouncedHit afterTwoBouncedHits)) ''b'' = Some False \<and>
   gameState (bouncedHit afterTwoBouncedHits) = ENDING"
  by code_simp

section \<open>Repeated elimination\<close>

text \<open>Claim C4, as it is stated: of two or more \<^verbatim>\<open>eliminate()\<close> calls on one player only
  the first has an effect. It fails for a player with a shield: for player b, fresh in
  the round, the first call leaves b alive and the second call is the one that flips the
  alive flag and counts the death.\<close>

theorem second_eliminate_has_effect:
  "isAlive (entities (eliminate 1 twoPlayersPlaying) 1) \<and>
   deaths (entities (eliminate 1 twoPlayersPlaying) 1) = 0 \<and>
   \<not> isAlive (entities (eliminate 1 (eliminate 1 twoPlayersPlaying)) 1) \<and>
   deaths (entities (eliminate 1 (eliminate 1 twoPlayersPlaying)) 1) = 1"
  by code_simp

text \<open>Claim C4, amended. For an alive player and any number of consecutive
  \<^verbatim>\<open>eliminate()\<close> calls: with shield 0 (or less) at the first call, the first call flips
  the alive flag and counts one death, and any number of calls gives the state the first
  one gave; with a positive shield, the first call only sets the shield to 0, the second
  call flips the alive flag and counts one death, and any further calls give the state
  the second one gave. Either way the flag goes from true to false once and the death
  statistic grows by one.\<close>

theorem eliminate_repeated:
  assumes "isAlive (entities s e)"
  shows "(shield (entities s e) \<le> 0 \<longrightarrow>
            \<not> isAlive (entities (eliminate e s) e) \<and>
            deaths (entities (eliminate e s) e) = deaths (entities s e) + 1 \<and>
            (\<forall>n. (eliminate e ^^ Suc n) s = eliminate e s))
       \<and> (shield (entities s e) > 0 \<longrightarrow>
            isAlive (entities (eliminate e s) e) \<and>
            shield (entities (eliminate e s) e) = 0 \<and>
            deaths (entities (eliminate e s) e) = deaths (entities s e) \<and>
            \<not> isAlive (entities (eliminate e (eliminate e s)) e) \<and>
            deaths (entities (eliminate e (eliminate e s)) e) = deaths (entities s e) + 1 \<and>
            (\<forall>n. (eliminate e ^^ Suc (Suc n)) s = eliminate e (eliminate e s)))"
proof (intro conjI impI)
  assume sh: "shield (entities s e) \<le> 0"
  show dead: "\<not> isAlive (entities (eliminate e s) e)"
    using assms sh by (simp add: entities_eliminate_unshielded)
  show "deaths (entities (eliminate e s) e) = deaths (entities s e) + 1"
    using assms sh by (simp add: entities_eliminate_unshielded)
  have "eliminate e (eliminate e s) = eliminate e s"
    using dead by (rule eliminate_dead)
  then show "\<forall>n. (eliminate e ^^ Suc n) s = eliminate e s"
    using funpow_absorb [of "eliminate e" s] by blast
next
  assume sh: "0 < shield (entities s e)"
  let ?s1 = "eliminate e s"
  show alive1: "isAlive (entities ?s1 e)"
    using assms sh by (simp add: entities_eliminate_shielded)
  show sh1: "shield (entities ?s1 e) = 0"
    using assms sh by (simp add: entities_eliminate_shielded)
  show d1: "deaths (entities ?s1 e) = deaths (entities s e)"
    using assms sh by (simp add: entities_eliminate_shielded)
  show dead2: "\<not> isAlive (entities (eliminate e ?s1) e)"
    using alive1 sh1 by (simp add: entities_eliminate_unshielded)
  show "deaths (entities (eliminate e ?s1) e) = deaths (entities s e) + 1"
    using alive1 sh1 d1 by (simp add: entities_eliminate_unshielded)
  have "eliminate e (eliminate e ?s1) = eliminate e ?s1"
    using dead2 by (rule eliminate_dead)
  then have "\<forall>n. (eliminate e ^^ Suc n) ?s1 = eliminate e ?s1"
    using funpow_absorb [of "eliminate e" ?s1] by blast
  then show "\<forall>n. (eliminate e ^^ Suc (Suc n)) s = eliminate e ?s1"
    by (simp add: funpow_swap1)
qed

theorem eliminate_repeated_witness:
  "isAlive (entities twoPlayersPlaying 1) \<and> shield (entities twoPlayersPlaying 1) > 0 \<and>
   (eliminate 1 ^^ Suc (Suc 3)) twoPlayersPlaying
     = eliminate 1 (eliminate 1 twoPlayersPlaying) \<and>
   isAlive (entities (eliminate 1 twoPlayersPlaying) 1) \<and>
   shield (entities (eliminate 1 twoPlayersPlaying) 1) \<le> 0 \<and>
   (eliminate 1 ^^ Suc 4) (eliminate 1 twoPlayersPlaying)
     = eliminate 1 (eliminate 1 twoPlayersPlaying)"
proof -
  have a0: "isAlive (entities twoPlayersPlaying 1)" by code_simp
  have s0: "shield (entities twoPlayersPlaying 1) > 0" by code_simp
  have a1: "isAlive (entities (eliminate 1 twoPlayersPlaying) 1)" by code_simp
  have s1: "shield (entities (eliminate 1 twoPlayersPlaying) 1) \<le> 0" by code_simp
  from eliminate_repeated [OF a0] s0
  have r0: "(eliminate 1 ^^ Suc (Suc 3)) twoPlayersPlaying
              = eliminate 1 (eliminate 1 twoPlayersPlaying)"
    by blast
  from eliminate_repeated [OF a1] s1
  have r1: "(eliminate 1 ^^ Suc 4) (eliminate 1 twoPlayersPlaying)
              = eliminate 1 (eliminate 1 twoPlayersPlaying)"
    by blast
  from a0 s0 a1 s1 r0 r1 show ?thesis by blast
qed

section \<open>Damage\<close>

text \<open>Claim C7, as it is stated, says that health never becomes negative. It does: player
  b with health 100 takes 150 damage and has health -50.\<close>

theorem takeDamage_negative_health:
  "health (entities twoPlayersPlaying 1) = 100 \<and>
   health (entities (takeDamage 1 150 twoPlayersPlaying) 1) = - 50"
  by code_simp

text \<open>Claim C7, amended. \<^verbatim>\<open>takeDamage(amount)\<close> lowers health by exactly the amount, with
  no floor, so health can become negative; it calls \<^verbatim>\<open>eliminate()\<close> when the resulting
  health is zero or less and changes nothing but the health otherwise.\<close>

theorem takeDamage_effect:
  "health (entities (takeDamage e d s) e) = health (entities s e) - d \<and>
   (health (entities s e) - d \<le> 0 \<longrightarrow>
      takeDamage e d s =
        eliminate e (s\<lparr>entities := (entities s)
          (e := (entities s e)\<lparr>health := health (entities s e) - d\<rparr>)\<rparr>)) \<and>
   (health (entities s e) - d > 0 \<longrightarrow>
      takeDamage e d s =
        s\<lparr>entities := (entities s)
          (e := (entities s e)\<lparr>health := health (entities s e) - d\<rparr>)\<rparr>)"
  by (simp add: takeDamage_def Let_def)

theorem takeDamage_effect_witness:
  "health (entities twoPlayersPlaying 1) - 150 \<le> 0 \<and>
   takeDamage 1 150 twoPlayersPlaying =
     eliminate 1 (twoPlayersPlaying\<lparr>entities := (entities twoPlayersPlaying)
       (1 := (entities twoPlayersPlaying 1)\<lparr>health := health (entities twoPlayersPlaying 1) - 150\<rparr>)\<rparr>) \<and>
   health (entities twoPlayersPlaying 1) - 30 > 0 \<and>
   takeDamage 1 30 twoPlayersPlaying =
     twoPlayersPlaying\<lparr>entities := (entities twoPlayersPlaying)
       (1 := (entities twoPlayersPlaying 1)\<lparr>health := health (entities twoPlayersPlaying 1) - 30\<rparr>)\<rparr>"
proof -
  have h: "health (entities twoPlayersPlaying 1) = 100" by code_simp
  from h takeDamage_effect [of 1 150 twoPlayersPlaying] takeDamage_effect [of 1 30 twoPlayersPlaying]
  show ?thesis by simp
qed

section \<open>Team assignment\<close>

lemma playerTeams_handlePlayerJoin:
  "playerTeams (handlePlayerJoin pid s) =
     (if world s then AList.update pid (assignTeam s) (playerTeams s) else playerTeams s)"
  by (simp add: handlePlayerJoin_def Let_def checkForGameStart_def startCountdown_def emit_def
      assignTeam_def teamCount_def)

lemma world_handlePlayerJoin [simp]: "world (handlePlayerJoin pid s) = world s"
  by (simp add: handlePlayerJoin_def Let_def checkForGameStart_def startCountdown_def emit_def)

lemma joins_Nil [simp]: "joins [] s = s"
  by (simp add: joins_def)

lemma joins_Cons [simp]: "joins (pid # pids) s = joins pids (handlePlayerJoin pid s)"
  by (simp add: joins_def)

lemma joins_snoc: "joins (pids @ [pid]) s = handlePlayerJoin pid (joins pids s)"
  by (simp add: joins_def)

lemma world_joins [simp]: "world (joins pids s) = world s"
  by (induction pids arbitrary: s) simp_all

lemma update_fresh: "k \<notin> fst ` set al \<Longrightarrow> AList.update k v al = al @ [(k, v)]"
  by (induction al) auto

lemma teamCount_join_fresh:
  assumes "world s" and "pid \<notin> fst ` set (playerTeams s)"
  shows "teamCount t (handlePlayerJoin pid s) =
           teamCount t s + (if assignTeam s = t then 1 else 0)"
  using assms by (simp add: playerTeams_handlePlayerJoin update_fresh teamCount_def)

lemma keys_handlePlayerJoin:
  "fst ` set (playerTeams (handlePlayerJoin pid s)) \<subseteq> insert pid (fst ` set (playerTeams s))"
  by (auto simp: playerTeams_handlePlayerJoin dom_update)

lemma balanced_handlePlayerJoin:
  assumes "pid \<notin> fst ` set (playerTeams s)"
    and "teamCount BLUE s \<le> teamCount RED s" and "teamCount RED s \<le> teamCount BLUE s + 1"
  shows "teamCount BLUE (handlePlayerJoin pid s) \<le> teamCount RED (handlePlayerJoin pid s) \<and>
         teamCount RED (handlePlayerJoin pid s) \<le> teamCount BLUE (handlePlayerJoin pid s) + 1"
proof (cases "world s")
  case True
  with assms show ?thesis
    by (simp add: teamCount_join_fresh) (simp add: assignTeam_def)
next
  case False
  with assms show ?thesis by (simp add: handlePlayerJoin_def)
qed

lemma balanced_joins:
  assumes "distinct pids" and "set pids \<inter> fst ` set (playerTeams s) = {}"
    and "teamCount BLUE s \<le> teamCount RED s" and "teamCount RED s \<le> teamCount BLUE s + 1"
  shows "teamCount BLUE (joins pids s) \<le> teamCount RED (joins pids s) \<and>
         teamCount RED (joins pids s) \<le> teamCount BLUE (joins pids s) + 1"
  using assms
proof (induction pids arbitrary: s)
  case Nil
  then show ?case by simp
next
  case (Cons pid pids)
  have fresh: "pid \<notin> fst ` set (playerTeams s)"
    using Cons.prems(2) by auto
  have bal: "teamCount BLUE (handlePlayerJoin pid s) \<le> teamCount RED (handlePlayerJoin pid s) \<and>
         teamCount RED (handlePlayerJoin pid s) \<le> teamCount BLUE (handlePlayerJoin pid s) + 1"
    using fresh Cons.prems(3,4) by (rule balanced_handlePlayerJoin)
  have disj: "set pids \<inter> fst ` set (playerTeams (handlePlayerJoin pid s)) = {}"
    using Cons.prems(1,2) keys_handlePlayerJoin [of pid s] by auto
  show ?case
    using Cons.IH [of "handlePlayerJoin pid s"] Cons.prems(1) disj bal by simp
qed

lemma tie_goes_to_RED:
  assumes "world s" and "teamCount RED s = teamCount BLUE s"
  shows "map_of (playerTeams (handlePlayerJoin pid s)) pid = Some RED"
  using assms by (simp add: playerTeams_handlePlayerJoin update_conv' assignTeam_def)

text \<open>Claim C8. Starting from an empty team map, after every join of a run of joins by
  distinct players, with no leave in between, the RED and BLUE counts differ by at most
  one; and a player who joins while the counts are equal is assigned to RED.\<close>

theorem joins_keep_teams_balanced:
  assumes "playerTeams s = []" and "distinct pids"
  shows "\<forall>n \<le> length pids.
           \<bar>int (teamCount RED (joins (take n pids) s)) -
            int (teamCount BLUE (joins (take n pids) s))\<bar> \<le> 1 \<and>
           (n < length pids \<and> world s \<and>
            teamCount RED (joins (take n pids) s) = teamCount BLUE (joins (take n pids) s) \<longrightarrow>
              map_of (playerTeams (joins (take (Suc n) pids) s)) (pids ! n) = Some RED)"
proof (intro allI impI conjI)
  fix n assume "n \<le> length pids"
  have "distinct (take n pids)" using assms(2) by simp
  moreover have "set (take n pids) \<inter> fst ` set (playerTeams s) = {}"
    using assms(1) by simp
  moreover have "teamCount BLUE s \<le> teamCount RED s" "teamCount RED s \<le> teamCount BLUE s + 1"
    using assms(1) by (simp_all add: teamCount_def)
  ultimately have "teamCount BLUE (joins (take n pids) s) \<le> teamCount RED (joins (take n pids) s) \<and>
         teamCount RED (joins (take n pids) s) \<le> teamCount BLUE (joins (take n pids) s) + 1"
    by (rule balanced_joins)
  then show "\<bar>int (teamCount RED (joins (take n pids) s)) -
            int (teamCount BLUE (joins (take n pids) s))\<bar> \<le> 1"
    by linarith
next
  fix n
  assume h: "n < length pids \<and> world s \<and>
            teamCount RED (joins (take n pids) s) = teamCount BLUE (joins (take n pids) s)"
  then have "take (Suc n) pids = take n pids @ [pids ! n]"
    by (simp add: take_Suc_conv_app_nth)
  then have "joins (take (Suc n) pids) s = handlePlayerJoin (pids ! n) (joins (take n pids) s)"
    by (simp add: joins_snoc)
  with h show "map_of (playerTeams (joins (take (Suc n) pids) s)) (pids ! n) = Some RED"
    by (simp add: tie_goes_to_RED)
qed

theorem joins_keep_teams_balanced_witness:
  "playerTeams initialState = [] \<and> distinct [''a'', ''b'', ''c''] \<and>
   (2::nat) \<le> length [''a'', ''b'', ''c''] \<and>
   \<bar>int (teamCount RED (joins (take 2 [''a'', ''b'', ''c'']) initialState)) -
    int (teamCount BLUE (joins (take 2 [''a'', ''b'', ''c'']) initialState))\<bar> \<le> 1 \<and>
   world initialState \<and>
   teamCount RED (joins (take 2 [''a'', ''b'', ''c'']) initialState)
     = teamCount BLUE (joins (take 2 [''a'', ''b'', ''c'']) initialState) \<and>
   map_of (playerTeams (joins (take (Suc 2) [''a'', ''b'', ''c'']) initialState))
     ([''a'', ''b'', ''c''] ! 2) = Some RED"
proof -
  have e: "playerTeams initialState = []" by code_simp
  have d: "distinct [''a'', ''b'', ''c'']" by simp
  have n: "(2::nat) \<le> length [''a'', ''b'', ''c'']" "(2::nat) < length [''a'', ''b'', ''c'']" by simp_all
  have w: "world initialState" by code_simp
  have t: "teamCount RED (joins (take 2 [''a'', ''b'', ''c'']) initialState)
     = teamCount BLUE (joins (take 2 [''a'', ''b'', ''c'']) initialState)" by code_simp
  from joins_keep_teams_balanced [OF e d] n w t show ?thesis
    using e d by blast
qed

section \<open>The ball under its callbacks\<close>

lemma ballRun_Nil [simp]: "ballRun [] c = c"
  by (simp add: ballRun_def)

lemma ballRun_Cons [simp]: "ballRun (ev # evs) c = ballRun evs (ballStep c ev)"
  by (simp add: ballRun_def)

text \<open>A player hit and a catch leave the ball as it is or despawn it.\<close>

lemma ball_handlePlayerHit:
  "fst (handlePlayerHit e (b, s)) = b \<or> fst (handlePlayerHit e (b, s)) = despawn b"
  by (simp add: handlePlayerHit_def Let_def split: prod.split bool.split)

lemma ball_onEntityCollision:
  "fst (onEntityCollision e (b, s)) = b \<or> fst (onEntityCollision e (b, s)) = despawn b"
  using ball_handlePlayerHit [of e b s] by (simp add: onEntityCollision_def Let_def)

lemma ball_catch: "fst (catch c (b, s)) = b \<or> fst (catch c (b, s)) = despawn b"
  by (simp add: catch_def Let_def)

lemma ballWorld_despawn [simp]: "\<not> ballWorld (despawn b)"
  by (simp add: despawn_def)

lemma bounceCount_despawn [simp]: "bounceCount (despawn b) = bounceCount b"
  by (simp add: despawn_def)

text \<open>\<^verbatim>\<open>despawn()\<close> clears the pending catch-window timer and leaves the flag as it is;
  a despawned ball rejects every catch and every hit.\<close>

lemma despawned_ball_inert:
  "canBeCaught (despawn b) = canBeCaught b"
  "catch c (despawn b, s) = (despawn b, s)"
  "onEntityCollision e (despawn b, s) = (despawn b, s)"
  by (simp_all add: canBeCaught_def catch_def onEntityCollision_def handlePlayerHit_def
      despawn_def Let_def)

lemma bounceCount_onBlockCollision [simp]:
  "bounceCount (onBlockCollision b) = Suc (bounceCount b)"
  by (simp add: onBlockCollision_def Let_def)

lemma ballWorld_onBlockCollision [simp]: "ballWorld (onBlockCollision b) = ballWorld b"
  by (simp add: onBlockCollision_def Let_def)

lemma thrower_onBlockCollision [simp]: "thrower (onBlockCollision b) = thrower b"
  by (simp add: onBlockCollision_def Let_def)

subsection \<open>The catch window\<close>

lemma catch_window_step:
  assumes "ballStep (now, b, s) ev = (now', b', s')"
    and "t0 \<le> now"
    and "ballWorld b \<and> bounceCount b = 0 \<longrightarrow>
           (canCatch b \<longleftrightarrow> now < t0 + DODGEBALL_CATCH_WINDOW_MS) \<and>
           (canCatch b \<longrightarrow> catchWindow b = Some (t0 + DODGEBALL_CATCH_WINDOW_MS))"
  shows "t0 \<le> now' \<and>
         (ballWorld b' \<and> bounceCount b' = 0 \<longrightarrow>
           (canCatch b' \<longleftrightarrow> now' < t0 + DODGEBALL_CATCH_WINDOW_MS) \<and>
           (canCatch b' \<longrightarrow> catchWindow b' = Some (t0 + DODGEBALL_CATCH_WINDOW_MS)))"
proof (cases ev)
  case (Elapse dt)
  with assms show ?thesis
    by (auto simp: fireTimers_def catchWindowExpired_def split: option.splits if_splits)
next
  case BlockCollision
  with assms show ?thesis by auto
next
  case (EntityCollision e)
  with assms(1) have "now' = now" "b' = fst (onEntityCollision e (b, s))" by auto
  with assms(2,3) ball_onEntityCollision [of e b s] show ?thesis by auto
next
  case (Catch c)
  with assms(1) have "now' = now" "b' = fst (catch c (b, s))" by auto
  with assms(2,3) ball_catch [of c b s] show ?thesis by auto
next
  case LifetimeExpires
  with assms show ?thesis by (auto split: if_splits)
qed

lemma catch_window_run:
  assumes "ballRun evs (now, b, s) = (now', b', s')"
    and "t0 \<le> now"
    and "ballWorld b \<and> bounceCount b = 0 \<longrightarrow>
           (canCatch b \<longleftrightarrow> now < t0 + DODGEBALL_CATCH_WINDOW_MS) \<and>
           (canCatch b \<longrightarrow> catchWindow b = Some (t0 + DODGEBALL_CATCH_WINDOW_MS))"
  shows "t0 \<le> now' \<and>
         (ballWorld b' \<and> bounceCount b' = 0 \<longrightarrow>
           (canCatch b' \<longleftrightarrow> now' < t0 + DODGEBALL_CATCH_WINDOW_MS))"
  using assms
proof (induction evs arbitrary: now b s)
  case Nil
  then show ?case by auto
next
  case (Cons ev evs)
  obtain n1 b1 s1 where st: "ballStep (now, b, s) ev = (n1, b1, s1)"
    by (cases "ballStep (now, b, s) ev") auto
  from catch_window_step [OF st Cons.prems(2,3)]
  have inv: "t0 \<le> n1"
    "ballWorld b1 \<and> bounceCount b1 = 0 \<longrightarrow>
           (canCatch b1 \<longleftrightarrow> n1 < t0 + DODGEBALL_CATCH_WINDOW_MS) \<and>
           (canCatch b1 \<longrightarrow> catchWindow b1 = Some (t0 + DODGEBALL_CATCH_WINDOW_MS))"
    by blast+
  from Cons.prems(1) st have "ballRun evs (n1, b1, s1) = (now', b', s')" by simp
  from Cons.IH [OF this inv] show ?case .
qed

text \<open>Claim C5, as it is stated: at every instant after the throw, \<^verbatim>\<open>canBeCaught()\<close>
  holds exactly when the bounce count is 0 and less than the catch window has elapsed
  since the throw. It fails for a ball that a hit has despawned inside the window:
  \<^verbatim>\<open>despawn()\<close> clears the timer and does not write the flag, so the ball that hit
  player b at 100 ms still answers true at 1000 ms, with bounce count 0 and the window of
  250 ms long over.\<close>

theorem despawned_ball_still_catchable:
  "fst ballDespawnedByHit = 1000 \<and>
   \<not> (fst ballDespawnedByHit - 0 < DODGEBALL_CATCH_WINDOW_MS) \<and>
   bounceCount (fst (snd ballDespawnedByHit)) = 0 \<and>
   \<not> ballWorld (fst (snd ballDespawnedByHit)) \<and>
   catchWindow (fst (snd ballDespawnedByHit)) = None \<and>
   canBeCaught (fst (snd ballDespawnedByHit))"
  by code_simp

text \<open>Claim C5, amended. A ball is thrown at time \<open>t0\<close> while spawned. At every later
  instant at which it is still spawned, whatever callbacks it has received since the
  throw, \<^verbatim>\<open>canBeCaught()\<close> holds exactly when its bounce count is 0 and less than the
  catch window has elapsed since the throw. So a spawned ball that has not bounced is
  uncatchable once the window is over, and one that has bounced is uncatchable inside the
  window.\<close>

theorem canBeCaught_iff:
  assumes "ballWorld b0"
    and "ballRun evs (t0, throw t0 t b0, s0) = (now, b, s)"
    and "ballWorld b"
  shows "t0 \<le> now \<and>
         (canBeCaught b \<longleftrightarrow>
            bounceCount b = 0 \<and> now - t0 < DODGEBALL_CATCH_WINDOW_MS)"
proof -
  let ?b = "throw t0 t b0"
  have init: "ballWorld ?b \<and> bounceCount ?b = 0 \<longrightarrow>
           (canCatch ?b \<longleftrightarrow> t0 < t0 + DODGEBALL_CATCH_WINDOW_MS) \<and>
           (canCatch ?b \<longrightarrow> catchWindow ?b = Some (t0 + DODGEBALL_CATCH_WINDOW_MS))"
    using assms(1)
    by (simp add: throw_def startCatchWindow_def DODGEBALL_CATCH_WINDOW_MS_def)
  from catch_window_run [OF assms(2) order_refl init] assms(3)
  have "t0 \<le> now" and "bounceCount b = 0 \<longrightarrow>
           (canCatch b \<longleftrightarrow> now < t0 + DODGEBALL_CATCH_WINDOW_MS)"
    by blast+
  then show ?thesis
    by (auto simp: canBeCaught_def)
qed

theorem canBeCaught_iff_witness:
  "ballWorld (spawnedDodgeball 1) \<and>
   ballWorld (fst (snd ballPastWindow)) \<and> bounceCount (fst (snd ballPastWindow)) = 0 \<and>
   fst ballPastWindow - 0 = 300 \<and> \<not> canBeCaught (fst (snd ballPastWindow)) \<and>
   ballWorld (fst (snd ballBouncedInWindow)) \<and> bounceCount (fst (snd ballBouncedInWindow)) = 1 \<and>
   fst ballBouncedInWindow - 0 = 100 \<and> \<not> canBeCaught (fst (snd ballBouncedInWindow))"
proof -
  have w0: "ballWorld (spawnedDodgeball 1)" by code_simp
  have r1: "ballRun [Elapse 300] (0, throw 0 0 (spawnedDodgeball 1), twoPlayersPlaying)
              = (fst ballPastWindow, fst (snd ballPastWindow), snd (snd ballPastWindow))"
    by (simp add: ballPastWindow_def)
  have w1: "ballWorld (fst (snd ballPastWindow))" by code_simp
  have c1: "bounceCount (fst (snd ballPastWindow)) = 0" by code_simp
  have n1: "fst ballPastWindow - 0 = 300" by code_simp
  have r2: "ballRun [BlockCollision, Elapse 100] (0, throw 0 0 (spawnedDodgeball 1), twoPlayersPlaying)
              = (fst ballBouncedInWindow, fst (snd ballBouncedInWindow),
                 snd (snd ballBouncedInWindow))"
    by (simp add: ballBouncedInWindow_def)
  have w2: "ballWorld (fst (snd ballBouncedInWindow))" by code_simp
  have c2: "bounceCount (fst (snd ballBouncedInWindow)) = 1" by code_simp
  have n2: "fst ballBouncedInWindow - 0 = 100" by code_simp
  from canBeCaught_iff [OF w0 r1 w1] n1
  have k1: "\<not> canBeCaught (fst (snd ballPastWindow))"
    by (simp add: DODGEBALL_CATCH_WINDOW_MS_def)
  from canBeCaught_iff [OF w0 r2 w2] c2
  have k2: "\<not> canBeCaught (fst (snd ballBouncedInWindow))"
    by simp
  from w0 w1 c1 n1 k1 w2 c2 n2 k2 show ?thesis by blast
qed

subsection \<open>A ball at the maximum bounce count\<close>

lemma emit_emit: "emit es2 (emit es1 s) = emit (es1 @ es2) s"
  by (simp add: emit_def)

lemma emit_Nil [simp]: "emit [] s = s"
  by (simp add: emit_def)

lemma soft_refl: "\<exists>es. s = emit es s \<and> list_all softHitEvent es"
  by (rule exI [of _ "[]"]) simp

lemma handlePlayerHit_spent:
  assumes "bounceCount b \<ge> DODGEBALL_MAX_BOUNCES"
  shows "handlePlayerHit e (b, s) =
           (if ballWorld b \<and> thrower b \<noteq> None
            then (despawn b, emit [PlayHitSound Soft, Knockback e] s) else (b, s))"
  using assms by (simp add: handlePlayerHit_def applyHitKnockback_def emit_emit)

lemma onEntityCollision_spent:
  assumes "bounceCount b \<ge> DODGEBALL_MAX_BOUNCES"
  shows "onEntityCollision e (b, s) =
           (if isAlive (entities s e) \<and> ballWorld b \<and> thrower b \<noteq> None
            then (despawn b, emit [PlayHitSound Soft, Knockback e] s) else (b, s))"
proof -
  from assms have "bounceCount b \<noteq> 0"
    by (simp add: DODGEBALL_MAX_BOUNCES_def)
  then show ?thesis
    by (auto simp: onEntityCollision_def handlePlayerHit_spent [OF assms])
qed

lemma catch_bounced: "bounceCount b > 0 \<Longrightarrow> catch c (b, s) = (b, s)"
  by (simp add: catch_def canBeCaught_def)

lemma spent_step:
  assumes "bounceCount b \<ge> DODGEBALL_MAX_BOUNCES"
    and "ballStep (now, b, s) ev = (now', b', s')"
  shows "bounceCount b' \<ge> DODGEBALL_MAX_BOUNCES \<and>
         (\<exists>es. s' = emit es s \<and> list_all softHitEvent es)"
proof (cases ev)
  case (Elapse dt)
  with assms have "bounceCount b' = bounceCount b" "s' = s"
    by (auto simp: fireTimers_def catchWindowExpired_def split: option.splits)
  with assms(1) soft_refl [of s] show ?thesis by simp
next
  case BlockCollision
  with assms have "bounceCount b' = Suc (bounceCount b)" "s' = s" by auto
  with assms(1) soft_refl [of s] show ?thesis by simp
next
  case (EntityCollision e)
  with assms(2) have r: "onEntityCollision e (b, s) = (b', s')" by simp
  show ?thesis
  proof (cases "isAlive (entities s e) \<and> ballWorld b \<and> thrower b \<noteq> None")
    case True
    with r onEntityCollision_spent [OF assms(1), of e s]
    have "b' = despawn b" "s' = emit [PlayHitSound Soft, Knockback e] s" by simp_all
    moreover have "list_all softHitEvent [PlayHitSound Soft, Knockback e]" by simp
    ultimately show ?thesis using assms(1) by auto
  next
    case False
    with r onEntityCollision_spent [OF assms(1), of e s]
    have "b' = b" "s' = s" by auto
    with assms(1) soft_refl [of s] show ?thesis by simp
  qed
next
  case (Catch c)
  from assms(1) have "bounceCount b > 0" by (simp add: DODGEBALL_MAX_BOUNCES_def)
  with Catch assms(2) have "b' = b" "s' = s" by (auto simp: catch_bounced)
  with assms(1) soft_refl [of s] show ?thesis by simp
next
  case LifetimeExpires
  with assms(2) have "bounceCount b' = bounceCount b" "s' = s"
    by (auto split: if_splits)
  with assms(1) soft_refl [of s] show ?thesis by simp
qed

lemma spent_run:
  assumes "bounceCount b \<ge> DODGEBALL_MAX_BOUNCES"
    and "ballRun evs (now, b, s) = (now', b', s')"
  shows "bounceCount b' \<ge> DODGEBALL_MAX_BOUNCES \<and>
         (\<exists>es. s' = emit es s \<and> list_all softHitEvent es)"
  using assms
proof (induction evs arbitrary: now b s)
  case Nil
  then have "b' = b" "s' = s" by auto
  with Nil.prems(1) soft_refl [of s] show ?case by simp
next
  case (Cons ev evs)
  obtain n1 b1 s1 where st: "ballStep (now, b, s) ev = (n1, b1, s1)"
    by (cases "ballStep (now, b, s) ev") auto
  from spent_step [OF Cons.prems(1) st]
  obtain es1 where b1: "bounceCount b1 \<ge> DODGEBALL_MAX_BOUNCES"
    and s1: "s1 = emit es1 s" "list_all softHitEvent es1"
    by blast
  from Cons.prems(2) st have "ballRun evs (n1, b1, s1) = (now', b', s')" by simp
  from Cons.IH [OF b1 this]
  obtain es2 where b': "bounceCount b' \<ge> DODGEBALL_MAX_BOUNCES"
    and s': "s' = emit es2 s1" "list_all softHitEvent es2"
    by blast
  from s1 s' have "s' = emit (es1 @ es2) s" "list_all softHitEvent (es1 @ es2)"
    by (simp_all add: emit_emit)
  with b' show ?case by blast
qed

text \<open>Claim C6. Once the bounce count of a ball has reached the maximum, whatever
  callbacks the ball receives afterwards and whatever its power level and damage
  multiplier, no player is eliminated: all the ball does to the game is play the soft hit
  sound and knock players back, so every player's health, shield and alive flag, the
  alive map and the game state stay as they are; and a hit resolves as sound and
  knockback, after which the ball despawns.\<close>

theorem spent_ball_never_eliminates:
  assumes "bounceCount b \<ge> DODGEBALL_MAX_BOUNCES"
    and "ballRun evs (now, b, s) = (now', b', s')"
  shows "bounceCount b' \<ge> DODGEBALL_MAX_BOUNCES \<and>
         (\<exists>es. s' = emit es s \<and> list_all softHitEvent es) \<and>
         entities s' = entities s \<and> alivePlayers s' = alivePlayers s \<and>
         gameState s' = gameState s \<and>
         handlePlayerHit e (b', s') =
           (if ballWorld b' \<and> thrower b' \<noteq> None
            then (despawn b', emit [PlayHitSound Soft, Knockback e] s') else (b', s'))"
proof -
  from spent_run [OF assms]
  obtain es where b': "bounceCount b' \<ge> DODGEBALL_MAX_BOUNCES"
    and s': "s' = emit es s" "list_all softHitEvent es"
    by blast
  from s' have "entities s' = entities s" "alivePlayers s' = alivePlayers s"
    "gameState s' = gameState s"
    by (simp_all add: emit_def)
  with b' s' handlePlayerHit_spent [OF b', of e s'] show ?thesis by blast
qed

theorem spent_ball_never_eliminates_witness:
  "bounceCount spentBall \<ge> DODGEBALL_MAX_BOUNCES \<and>
   isAlive (entities weakenedPlayer 1) \<and> shield (entities weakenedPlayer 1) = 0 \<and>
   health (entities weakenedPlayer 1) = 20 \<and>
   events (snd (snd spentBallHits)) = events weakenedPlayer @ [PlayHitSound Soft, Knockback 1] \<and>
   entities (snd (snd spentBallHits)) = entities weakenedPlayer \<and>
   alivePlayers (snd (snd spentBallHits)) = alivePlayers weakenedPlayer \<and>
   gameState (snd (snd spentBallHits)) = gameState weakenedPlayer"
proof -
  have b: "bounceCount spentBall \<ge> DODGEBALL_MAX_BOUNCES" by code_simp
  have r: "ballRun [Elapse 50, EntityCollision 1] (500, spentBall, weakenedPlayer)
             = (fst spentBallHits, fst (snd spentBallHits), snd (snd spentBallHits))"
    by (simp add: spentBallHits_def)
  have p: "isAlive (entities weakenedPlayer 1)" "shield (entities weakenedPlayer 1) = 0"
    "health (entities weakenedPlayer 1) = 20"
    by code_simp+
  have ev: "events (snd (snd spentBallHits))
              = events weakenedPlayer @ [PlayHitSound Soft, Knockback 1]"
    by code_simp
  from spent_ball_never_eliminates [OF b r] b p ev show ?thesis by blast
qed

subsection \<open>A ball that was never thrown\<close>

lemma never_thrown_hit: "thrower b = None \<Longrightarrow> onEntityCollision e (b, s) = (b, s)"
  by (simp add: onEntityCollision_def handlePlayerHit_def)

lemma never_thrown_catch:
  "thrower b = None \<Longrightarrow>
   catch c (b, s) = (if canBeCaught b \<and> ballWorld b then (despawn b, s) else (b, s))"
  by (simp add: catch_def)

lemma never_thrown_step:
  assumes "ballStep (now, b, s) ev = (now', b', s')"
    and "thrower b = None" and "catchWindow b = None"
    and "bounceCount b = 0 \<longrightarrow> canCatch b"
  shows "thrower b' = None \<and> catchWindow b' = None \<and> (bounceCount b' = 0 \<longrightarrow> canCatch b')
         \<and> s' = s"
proof (cases ev)
  case (Elapse dt)
  with assms show ?thesis by (auto simp: fireTimers_def)
next
  case BlockCollision
  with assms show ?thesis by (auto simp: onBlockCollision_def Let_def)
next
  case (EntityCollision e)
  with assms show ?thesis by (auto simp: never_thrown_hit)
next
  case (Catch c)
  with assms show ?thesis by (auto simp: never_thrown_catch despawn_def split: if_splits)
next
  case LifetimeExpires
  with assms show ?thesis by (auto simp: despawn_def split: if_splits)
qed

lemma never_thrown_run:
  assumes "ballRun evs (now, b, s) = (now', b', s')"
    and "thrower b = None" and "catchWindow b = None"
    and "bounceCount b = 0 \<longrightarrow> canCatch b"
  shows "thrower b' = None \<and> (bounceCount b' = 0 \<longrightarrow> canCatch b') \<and> s' = s"
  using assms
proof (induction evs arbitrary: now b s)
  case Nil
  then show ?case by auto
next
  case (Cons ev evs)
  obtain n1 b1 s1 where st: "ballStep (now, b, s) ev = (n1, b1, s1)"
    by (cases "ballStep (now, b, s) ev") auto
  from never_thrown_step [OF st Cons.prems(2,3,4)]
  have inv: "thrower b1 = None" "catchWindow b1 = None" "bounceCount b1 = 0 \<longrightarrow> canCatch b1"
    and s1: "s1 = s"
    by blast+
  from Cons.prems(1) st have "ballRun evs (n1, b1, s1) = (now', b', s')" by simp
  from Cons.IH [OF this inv] s1 show ?case by simp
qed

text \<open>Claim C10, as it is stated: a ball that was spawned and never thrown can be caught at
  every instant of its life. It fails once the ball has touched a block: the ball
  spawned above the centre line falls to the ground, is still spawned and has no thrower,
  and \<^verbatim>\<open>canBeCaught()\<close> is false.\<close>

theorem ball_on_ground_not_catchable:
  "ballWorld (fst (snd ballOnGround)) \<and> thrower (fst (snd ballOnGround)) = None \<and>
   bounceCount (fst (snd ballOnGround)) = 1 \<and>
   \<not> canBeCaught (fst (snd ballOnGround))"
  by code_simp

text \<open>Claim C10, amended. For a ball that was spawned and never thrown, whatever callbacks
  it receives and however much time passes (no catch-window timer is armed outside
  \<^verbatim>\<open>throw\<close>), \<^verbatim>\<open>canBeCaught()\<close> holds exactly as long as its bounce count is 0; it
  has no thrower and does nothing to the game; and a catch while the bounce count is 0 and
  the ball is spawned despawns it and eliminates nobody.\<close>

theorem never_thrown_ball:
  assumes "ballRun evs (now, spawnedDodgeball pl, s) = (now', b', s')"
  shows "thrower b' = None \<and> s' = s \<and>
         (canBeCaught b' \<longleftrightarrow> bounceCount b' = 0) \<and>
         catch c (b', s') =
           (if bounceCount b' = 0 \<and> ballWorld b' then (despawn b', s') else (b', s'))"
proof -
  have "thrower (spawnedDodgeball pl) = None" "catchWindow (spawnedDodgeball pl) = None"
    "bounceCount (spawnedDodgeball pl) = 0 \<longrightarrow> canCatch (spawnedDodgeball pl)"
    by (simp_all add: spawnedDodgeball_def)
  from never_thrown_run [OF assms this]
  have inv: "thrower b' = None" "bounceCount b' = 0 \<longrightarrow> canCatch b'" "s' = s"
    by blast+
  then have cc: "canBeCaught b' \<longleftrightarrow> bounceCount b' = 0"
    by (auto simp: canBeCaught_def)
  with inv never_thrown_catch [of b' c s'] show ?thesis by simp
qed

theorem never_thrown_ball_witness:
  "bounceCount (fst (snd ballOnGround)) = 1 \<and>
   thrower (fst (snd ballOnGround)) = None \<and>
   \<not> canBeCaught (fst (snd ballOnGround)) \<and>
   snd (snd ballOnGround) = twoPlayersPlaying \<and>
   catch 1 (snd ballOnGround) = snd ballOnGround \<and>
   fst ballInAir = 10000 \<and> bounceCount (fst (snd ballInAir)) = 0 \<and>
   ballWorld (fst (snd ballInAir)) \<and> canBeCaught (fst (snd ballInAir)) \<and>
   catch 1 (snd ballInAir) = (despawn (fst (snd ballInAir)), twoPlayersPlaying)"
proof -
  have r: "ballRun [Elapse 1000, BlockCollision] (0, spawnedDodgeball 1, twoPlayersPlaying)
             = (fst ballOnGround, fst (snd ballOnGround), snd (snd ballOnGround))"
    by (simp add: ballOnGround_def)
  have c: "bounceCount (fst (snd ballOnGround)) = 1" by code_simp
  have r': "ballRun [Elapse 10000] (0, spawnedDodgeball 1, twoPlayersPlaying)
             = (fst ballInAir, fst (snd ballInAir), snd (snd ballInAir))"
    by (simp add: ballInAir_def)
  have c': "fst ballInAir = 10000" "bounceCount (fst (snd ballInAir)) = 0"
    "ballWorld (fst (snd ballInAir))"
    by (simp_all add: ballInAir_def fireTimers_def spawnedDodgeball_def)
  from never_thrown_ball [OF r, of 1] never_thrown_ball [OF r', of 1] c c'
  show ?thesis by simp
qed

section \<open>Power-up collection\<close>

lemma powerUpRun_Nil [simp]: "powerUpRun [] pu = pu"
  by (simp add: powerUpRun_def)

lemma powerUpRun_Cons [simp]: "powerUpRun (ev # evs) pu = powerUpRun evs (powerUpStep pu ev)"
  by (simp add: powerUpRun_def)

text \<open>Before collection no effect has been applied and no call is suspended; at most one
  effect is ever applied; a power-up that is still in the world has not been despawned,
  and one that is not has been despawned at most once.\<close>

lemma powerUp_step_inv:
  assumes "\<not> collected pu \<longrightarrow> effects pu = []"
    and "length (effects pu) \<le> 1"
    and "powerUpWorld pu \<longrightarrow> despawns pu = 0"
    and "despawns pu \<le> 1"
  shows "(\<not> collected (powerUpStep pu ev) \<longrightarrow> effects (powerUpStep pu ev) = []) \<and>
         length (effects (powerUpStep pu ev)) \<le> 1 \<and>
         (powerUpWorld (powerUpStep pu ev) \<longrightarrow> despawns (powerUpStep pu ev) = 0) \<and>
         despawns (powerUpStep pu ev) \<le> 1"
proof (cases ev)
  case (Collision other started)
  with assms show ?thesis
    by (cases other) (auto simp: onPowerUpCollision_def collect_def effects_def despawns_def)
next
  case Resume
  with assms show ?thesis
    by (cases "suspended pu")
       (auto simp: collectResume_def powerUpDespawn_def effects_def despawns_def Let_def)
next
  case TimerFires
  with assms show ?thesis
    by (auto simp: autoDespawn_def powerUpDespawn_def effects_def despawns_def Let_def)
qed

lemma powerUp_run_inv:
  assumes "\<not> collected pu \<longrightarrow> effects pu = []"
    and "length (effects pu) \<le> 1"
    and "powerUpWorld pu \<longrightarrow> despawns pu = 0"
    and "despawns pu \<le> 1"
  shows "length (effects (powerUpRun evs pu)) \<le> 1 \<and> despawns (powerUpRun evs pu) \<le> 1"
  using assms
proof (induction evs arbitrary: pu)
  case Nil
  then show ?case by simp
next
  case (Cons ev evs)
  from powerUp_step_inv [OF Cons.prems, of ev]
  have "\<not> collected (powerUpStep pu ev) \<longrightarrow> effects (powerUpStep pu ev) = []"
    "length (effects (powerUpStep pu ev)) \<le> 1"
    "powerUpWorld (powerUpStep pu ev) \<longrightarrow> despawns (powerUpStep pu ev) = 0"
    "despawns (powerUpStep pu ev) \<le> 1"
    by blast+
  from Cons.IH [OF this] show ?case by simp
qed

lemma collected_step:
  assumes "collected pu"
  shows "collected (powerUpStep pu ev) \<and> effects (powerUpStep pu ev) = effects pu"
proof (cases ev)
  case (Collision other started)
  with assms show ?thesis
    by (cases other) (simp_all add: onPowerUpCollision_def)
next
  case Resume
  with assms show ?thesis
    by (cases "suspended pu")
       (simp_all add: collectResume_def powerUpDespawn_def effects_def Let_def)
next
  case TimerFires
  with assms show ?thesis
    by (simp add: autoDespawn_def powerUpDespawn_def effects_def Let_def)
qed

lemma collected_run:
  assumes "collected pu"
  shows "collected (powerUpRun evs pu) \<and> effects (powerUpRun evs pu) = effects pu"
  using assms
proof (induction evs arbitrary: pu)
  case Nil
  then show ?case by simp
next
  case (Cons ev evs)
  from collected_step [OF Cons.prems, of ev] Cons.IH [of "powerUpStep pu ev"]
  show ?case by simp
qed

lemma collision_after_collection:
  "collected pu \<Longrightarrow> onPowerUpCollision other started pu = pu"
  by (cases other) (simp_all add: onPowerUpCollision_def)

text \<open>Claim C9. Whatever sequence of collision callbacks, resumptions of suspended
  \<^verbatim>\<open>collect\<close> calls and timer callbacks a spawned power-up receives, at most one effect
  is applied and at most one despawn happens. The flag is tested before any side effect
  and set before the \<^verbatim>\<open>await\<close>: when the first callback is a started collision with a
  player, that player's effect is the one applied, whatever follows, and every later
  collision callback leaves the power-up as it is.\<close>

theorem powerUp_single_consumption:
  "length (effects (powerUpRun evs (spawnedPowerUp ty))) \<le> 1 \<and>
   despawns (powerUpRun evs (spawnedPowerUp ty)) \<le> 1 \<and>
   effects (powerUpRun (Collision (PlayerEntity e) True # evs) (spawnedPowerUp ty))
     = [EffectApplied ty e] \<and>
   onPowerUpCollision other started
       (powerUpRun (Collision (PlayerEntity e) True # evs) (spawnedPowerUp ty))
     = powerUpRun (Collision (PlayerEntity e) True # evs) (spawnedPowerUp ty)"
proof -
  let ?pu0 = "spawnedPowerUp ty"
  have "\<not> collected ?pu0 \<longrightarrow> effects ?pu0 = []" "length (effects ?pu0) \<le> 1"
    "powerUpWorld ?pu0 \<longrightarrow> despawns ?pu0 = 0" "despawns ?pu0 \<le> 1"
    by (simp_all add: spawnedPowerUp_def effects_def despawns_def)
  from powerUp_run_inv [OF this, of evs]
  have once: "length (effects (powerUpRun evs ?pu0)) \<le> 1" "despawns (powerUpRun evs ?pu0) \<le> 1"
    by blast+
  let ?pu1 = "powerUpStep ?pu0 (Collision (PlayerEntity e) True)"
  have c1: "collected ?pu1" and e1: "effects ?pu1 = [EffectApplied ty e]"
    by (simp_all add: onPowerUpCollision_def collect_def spawnedPowerUp_def effects_def)
  from collected_run [OF c1, of evs] e1
  have "collected (powerUpRun evs ?pu1)" "effects (powerUpRun evs ?pu1) = [EffectApplied ty e]"
    by simp_all
  with once collision_after_collection [of "powerUpRun evs ?pu1" other started]
  show ?thesis by simp
qed

theorem powerUp_single_consumption_witness:
  "effects (powerUpRun
      [Collision (PlayerEntity 0) True, Collision (PlayerEntity 1) True, Resume, Resume,
       TimerFires] (spawnedPowerUp SHIELD)) = [EffectApplied SHIELD 0] \<and>
   despawns (powerUpRun
      [Collision (PlayerEntity 1) True, Resume, Resume, TimerFires]
      (powerUpStep (spawnedPowerUp SHIELD) (Collision (PlayerEntity 0) True))) = 1 \<and>
   trace (powerUpRun
      [Collision (PlayerEntity 0) True, Collision (PlayerEntity 1) True, Resume, Resume,
       TimerFires] (spawnedPowerUp SHIELD))
     = [EffectApplied SHIELD 0, CollectedMsg 0, Despawned]"
proof -
  have t: "trace (powerUpRun
      [Collision (PlayerEntity 0) True, Collision (PlayerEntity 1) True, Resume, Resume,
       TimerFires] (spawnedPowerUp SHIELD))
     = [EffectApplied SHIELD 0, CollectedMsg 0, Despawned]"
    by code_simp
  have d: "despawns (powerUpRun
      [Collision (PlayerEntity 1) True, Resume, Resume, TimerFires]
      (powerUpStep (spawnedPowerUp SHIELD) (Collision (PlayerEntity 0) True))) = 1"
    by code_simp
  from powerUp_single_consumption
    [of "[Collision (PlayerEntity 1) True, Resume, Resume, TimerFires]" SHIELD 0] t d
  show ?thesis by simp
qed

end
